theory Spec2Isabelle
  imports Main
begin

text \<open>
  The calendar handlers of \<open>main.py\<close> over the models of \<open>schemas.py\<close>:
  \<open>create_calendar\<close>, \<open>update_calendar_page\<close> and \<open>get_calendar\<close>, as functions of
  their arguments and of the store, with every exception as a value.
\<close>

section \<open>Data model\<close>

subsection \<open>Schemas (schemas.py)\<close>

text \<open>
  The pydantic models \<open>CalendarPage\<close> and \<open>Calendar\<close>. Python integers are unbounded, so
  every integer field is an \<open>int\<close>; an \<open>Optional[str]\<close> field is a \<open>string option\<close>
  (\<open>None\<close> is Python's \<open>None\<close>).
\<close>

record calendar_page =
  month :: int
  image_url :: "string option"
  "note" :: "string option"

record calendar =
  title :: string
  year :: int
  start_month :: int
  style :: string
  pages :: "calendar_page list"
  owner :: "string option"

subsection \<open>Request bodies (main.py)\<close>

text \<open>
  \<open>CalendarCreate\<close> and \<open>PageUpdate\<close>. Their fields carry the source's names with a
  prefix, since the schema records above already own the plain names. Neither class
  constrains the range of any field.
\<close>

record calendar_create =
  cc_title :: string
  cc_year :: int
  cc_start_month :: int
  cc_style :: string
  cc_owner :: "string option"

record page_update =
  pu_image_url :: "string option"
  pu_note :: "string option"

subsection \<open>Stored documents\<close>

text \<open>
  What the handlers read back from the store are plain dictionaries. A page is a
  dictionary from keys to the values this program writes into a page (an integer month,
  strings, null); a key may be absent, which \<open>p.get(k)\<close> reads as \<open>None\<close>.
  A calendar document is a dictionary whose \<open>pages\<close> entry holds the list of page
  dictionaries. The collection maps each \<open>_id\<close> to the rest of its document, and
  \<open>find_one\<close> hands the document out with its \<open>_id\<close> entry.
\<close>

datatype pval = PNull | PInt int | PStr string

type_synonym page_doc = "string \<rightharpoonup> pval"

datatype 'oid dval =
  VNull | VInt int | VStr string | VTime nat | VId 'oid | VPages "page_doc list"

type_synonym 'oid document = "string \<rightharpoonup> 'oid dval"

type_synonym 'oid collection = "'oid \<rightharpoonup> 'oid document"

text \<open>
  The global \<open>db\<close> of the \<open>database\<close> module is \<open>None\<close> when the store is not
  available; otherwise it gives the \<open>calendar\<close> collection, the only one these
  handlers touch.
\<close>

type_synonym 'oid database = "'oid collection option"

subsection \<open>Exceptions\<close>

text \<open>
  \<open>HTTPException\<close> carries the status code and the detail string of the source.
  \<open>TypeError\<close> stands for the exception Python raises when the stored \<open>pages\<close> entry
  is not a list of dictionaries; the handler does not catch it.
\<close>

datatype exn = HTTPException int string | TypeError

text \<open>
  In \<open>create_calendar\<close> the model constructors raise pydantic's \<open>ValidationError\<close>, which
  names the fields that failed, and \<open>create_document\<close> may raise an exception of its own.
\<close>

datatype 'x create_exn = ValidationError "string list" | CreateDocumentError 'x

section \<open>Operations\<close>

subsection \<open>Model constructors\<close>

definition CalendarPage :: "int \<Rightarrow> 'x create_exn + calendar_page" where
  "CalendarPage m =
     (if 1 \<le> m \<and> m \<le> 12
      then Inr \<lparr>month = m, image_url = None, note = None\<rparr>
      else Inl (ValidationError [''month'']))"

definition Calendar ::
  "string \<Rightarrow> int \<Rightarrow> int \<Rightarrow> string \<Rightarrow> calendar_page list \<Rightarrow> string option
     \<Rightarrow> 'x create_exn + calendar" where
  "Calendar t y sm st ps ow =
     (let errs = (if 1900 \<le> y \<and> y \<le> 3000 then [] else [''year''])
               @ (if 1 \<le> sm \<and> sm \<le> 12 then [] else [''start_month''])
      in if errs = []
         then Inr \<lparr>title = t, year = y, start_month = sm, style = st, pages = ps, owner = ow\<rparr>
         else Inl (ValidationError errs))"

subsection \<open>\<open>create_calendar\<close>\<close>

text \<open>
  The loop \<open>for i in range(12)\<close> of \<open>create_calendar\<close>, with the list of pages built so
  far as accumulator; an exception of the page constructor leaves the loop.
\<close>

fun build_pages ::
  "int \<Rightarrow> int list \<Rightarrow> calendar_page list \<Rightarrow> 'x create_exn + calendar_page list" where
  "build_pages sm [] acc = Inr acc"
| "build_pages sm (i # rest) acc =
     (case CalendarPage ((sm - 1 + i) mod 12 + 1) of
        Inl e \<Rightarrow> Inl e
      | Inr p \<Rightarrow> build_pages sm rest (acc @ [p]))"

text \<open>
  \<open>create_document\<close> belongs to the \<open>database\<close> module; the handler takes it as the
  parameter \<open>create_doc\<close>, a function of the collection name, the model and the state of
  the store that returns the inserted identifier and the new state, or raises.
  The handler answers \<open>{"id": inserted_id}\<close>.
\<close>

definition create_calendar ::
  "(string \<Rightarrow> calendar \<Rightarrow> 's \<Rightarrow> 'x + string \<times> 's) \<Rightarrow> calendar_create \<Rightarrow> 's
     \<Rightarrow> 'x create_exn + (string \<times> string) list \<times> 's" where
  "create_calendar create_doc payload s =
     (case build_pages (cc_start_month payload) [0..11] [] of
        Inl e \<Rightarrow> Inl e
      | Inr ps \<Rightarrow>
          (case Calendar (cc_title payload) (cc_year payload) (cc_start_month payload)
                  (cc_style payload) ps (cc_owner payload) of
             Inl e \<Rightarrow> Inl e
           | Inr cal \<Rightarrow>
               (case create_doc ''calendar'' cal s of
                  Inl x \<Rightarrow> Inl (CreateDocumentError x)
                | Inr (inserted_id, s') \<Rightarrow> Inr ([(''id'', inserted_id)], s'))))"

subsection \<open>Store primitives\<close>

definition find_one :: "'oid collection \<Rightarrow> 'oid \<Rightarrow> 'oid document option" where
  "find_one coll oid = map_option (\<lambda>d. d(''_id'' \<mapsto> VId oid)) (coll oid)"

text \<open>\<open>update_one({"_id": oid}, {"$set": flds})\<close>: no document, no change.\<close>

definition update_one_set :: "'oid collection \<Rightarrow> 'oid \<Rightarrow> 'oid document \<Rightarrow> 'oid collection" where
  "update_one_set coll oid flds =
     (case coll oid of None \<Rightarrow> coll | Some d \<Rightarrow> coll(oid \<mapsto> d ++ flds))"

subsection \<open>\<open>update_calendar_page\<close>\<close>

text \<open>\<open>doc.get("pages", [])\<close>, as the rest of the handler uses it.\<close>

definition get_pages :: "'oid document \<Rightarrow> exn + page_doc list" where
  "get_pages doc =
     (case doc ''pages'' of
        None \<Rightarrow> Inr []
      | Some (VPages ps) \<Rightarrow> Inr ps
      | Some _ \<Rightarrow> Inl TypeError)"

text \<open>
  \<open>next((i for i, p in enumerate(pages) if p.get("month") == month), None)\<close>:
  the first index whose page has the month.
\<close>

fun find_page_index :: "int \<Rightarrow> page_doc list \<Rightarrow> nat option" where
  "find_page_index m [] = None"
| "find_page_index m (p # ps) =
     (if p ''month'' = Some (PInt m) then Some 0
      else map_option Suc (find_page_index m ps))"

text \<open>Lines 137 to 145: find or append the page, then set the supplied fields.\<close>

definition upsert_page :: "int \<Rightarrow> page_update \<Rightarrow> page_doc list \<Rightarrow> page_doc list" where
  "upsert_page m payload ps =
     (let (ps1, idx) =
            (case find_page_index m ps of
               None \<Rightarrow> (let ps' = ps @ [[''month'' \<mapsto> PInt m]] in (ps', length ps' - 1))
             | Some i \<Rightarrow> (ps, i));
          ps2 = (case pu_image_url payload of
                   None \<Rightarrow> ps1
                 | Some u \<Rightarrow> ps1[idx := (ps1 ! idx)(''image_url'' \<mapsto> PStr u)]);
          ps3 = (case pu_note payload of
                   None \<Rightarrow> ps2
                 | Some n \<Rightarrow> ps2[idx := (ps2 ! idx)(''note'' \<mapsto> PStr n)])
      in ps3)"

definition ok_response :: "(string \<times> string) list" where
  "ok_response = [(''status'', ''ok'')]"

text \<open>
  The handler, with the parser of identifiers \<open>ObjectId\<close> (\<open>None\<close> when it raises) and
  the clock reading \<open>now\<close> as parameters. It returns the response or the exception,
  and the store after the call.
\<close>

definition update_calendar_page ::
  "(string \<Rightarrow> 'oid option) \<Rightarrow> 'oid database \<Rightarrow> nat \<Rightarrow> string \<Rightarrow> int \<Rightarrow> page_update
     \<Rightarrow> (exn + (string \<times> string) list) \<times> 'oid database" where
  "update_calendar_page ObjectId db now calendar_id m payload =
     (if m < 1 \<or> m > 12 then (Inl (HTTPException 400 ''Month must be 1..12''), db)
      else case db of
        None \<Rightarrow> (Inl (HTTPException 500 ''Database not available''), db)
      | Some coll \<Rightarrow>
          (case ObjectId calendar_id of
             None \<Rightarrow> (Inl (HTTPException 400 ''Invalid calendar id''), db)
           | Some oid \<Rightarrow>
               (case find_one coll oid of
                  None \<Rightarrow> (Inl (HTTPException 404 ''Calendar not found''), db)
                | Some doc \<Rightarrow>
                    (case get_pages doc of
                       Inl e \<Rightarrow> (Inl e, db)
                     | Inr ps \<Rightarrow>
                         (Inr ok_response,
                          Some (update_one_set coll oid
                                  [''pages'' \<mapsto> VPages (upsert_page m payload ps),
                                   ''updated_at'' \<mapsto> VTime now]))))))"

subsection \<open>\<open>get_calendar\<close>\<close>

text \<open>\<open>str_of\<close> is \<open>str\<close> on identifiers.\<close>

definition get_calendar ::
  "(string \<Rightarrow> 'oid option) \<Rightarrow> ('oid \<Rightarrow> string) \<Rightarrow> 'oid database \<Rightarrow> string
     \<Rightarrow> exn + 'oid document" where
  "get_calendar ObjectId str_of db calendar_id =
     (case db of
        None \<Rightarrow> Inl (HTTPException 500 ''Database not available'')
      | Some coll \<Rightarrow>
          (case ObjectId calendar_id of
             None \<Rightarrow> Inl (HTTPException 400 ''Invalid calendar id'')
           | Some oid \<Rightarrow>
               (case find_one coll oid of
                  None \<Rightarrow> Inl (HTTPException 404 ''Calendar not found'')
                | Some doc \<Rightarrow> Inr ((doc(''_id'' := None))(''id'' \<mapsto> VStr (str_of oid))))))"

section \<open>Notions used by the properties\<close>

text \<open>
  The fields a request supplies, as the dictionary of the entries it writes: an omitted
  field (\<open>None\<close>) writes nothing.
\<close>

definition supplied_fields :: "page_update \<Rightarrow> page_doc" where
  "supplied_fields payload =
     (\<lambda>k. if k = ''image_url'' then map_option PStr (pu_image_url payload)
          else if k = ''note'' then map_option PStr (pu_note payload)
          else None)"

text \<open>
  The months of a list of stored pages, in order: a page counts with the integer under
  its \<open>month\<close> key, if it has one. A list holds at most one page per month when no
  month occurs twice.
\<close>

definition month_keys :: "page_doc list \<Rightarrow> int list" where
  "month_keys ps =
     List.map_filter (\<lambda>p. case p ''month'' of Some (PInt m) \<Rightarrow> Some m | _ \<Rightarrow> None) ps"

definition one_page_per_month :: "page_doc list \<Rightarrow> bool" where
  "one_page_per_month ps = distinct (month_keys ps)"

text \<open>The dictionary form of a page model (pydantic's \<open>model_dump\<close>).\<close>

definition model_dump :: "calendar_page \<Rightarrow> page_doc" where
  "model_dump p =
     [''month'' \<mapsto> PInt (month p),
      ''image_url'' \<mapsto> (case image_url p of None \<Rightarrow> PNull | Some u \<Rightarrow> PStr u),
      ''note'' \<mapsto> (case note p of None \<Rightarrow> PNull | Some n \<Rightarrow> PStr n)]"

text \<open>The \<open>pages\<close> entry of every stored document, which is what idempotence compares.\<close>

definition stored_pages :: "'oid database \<Rightarrow> ('oid \<Rightarrow> 'oid dval option option) option" where
  "stored_pages db = map_option (\<lambda>coll oid. map_option (\<lambda>d. d ''pages'') (coll oid)) db"

section \<open>Example inputs\<close>

text \<open>
  A parser of identifiers that accepts the strings of 24 hexadecimal digits and keeps
  them as they are, with the identity as \<open>str\<close>.
\<close>

definition hex_ObjectId :: "string \<Rightarrow> string option" where
  "hex_ObjectId s =
     (if length s = 24 \<and> list_all (\<lambda>c. c \<in> set ''0123456789abcdefABCDEF'') s
      then Some s else None)"

definition demo_id :: string where
  "demo_id = ''65a1b2c3d4e5f60718293a4b''"

definition other_id :: string where
  "other_id = ''000000000000000000000000''"

definition demo_pages :: "page_doc list" where
  "demo_pages =
     [[''month'' \<mapsto> PInt 4, ''image_url'' \<mapsto> PStr ''/uploads/x.jpg'', ''note'' \<mapsto> PNull],
      [''month'' \<mapsto> PInt 5, ''image_url'' \<mapsto> PNull, ''note'' \<mapsto> PNull]]"

definition demo_doc :: "string document" where
  "demo_doc =
     [''title'' \<mapsto> VStr ''Team 2025'', ''year'' \<mapsto> VInt 2025, ''start_month'' \<mapsto> VInt 4,
      ''pages'' \<mapsto> VPages demo_pages, ''updated_at'' \<mapsto> VTime 10]"

definition demo_coll :: "string collection" where
  "demo_coll = [demo_id \<mapsto> demo_doc]"

definition note_only :: page_update where
  "note_only = \<lparr>pu_image_url = None, pu_note = Some ''hello''\<rparr>"

definition empty_update :: page_update where
  "empty_update = \<lparr>pu_image_url = None, pu_note = None\<rparr>"

definition demo_create :: calendar_create where
  "demo_create = \<lparr>cc_title = ''Team 2025'', cc_year = 2025, cc_start_month = 3,
                   cc_style = ''classic'', cc_owner = None\<rparr>"

definition untitled_create :: calendar_create where
  "untitled_create = \<lparr>cc_title = [], cc_year = 2025, cc_start_month = 1,
                       cc_style = ''classic'', cc_owner = None\<rparr>"

definition early_create :: calendar_create where
  "early_create = \<lparr>cc_title = ''Old'', cc_year = 1899, cc_start_month = 1,
                    cc_style = ''classic'', cc_owner = None\<rparr>"

text \<open>A \<open>create_document\<close> that records the models it is given and always answers \<open>id1\<close>.\<close>

definition recording_store ::
  "string \<Rightarrow> calendar \<Rightarrow> calendar list \<Rightarrow> string + string \<times> calendar list" where
  "recording_store c m s = Inr (''id1'', s @ [m])"

section \<open>Auxiliary facts\<close>

subsection \<open>Building the pages of a new calendar\<close>

lemma range12: "[0..11] = [0, 1, 2, 3, 4, 5, 6, 7, 8, 9, 10, 11 :: int]"
  by code_simp

lemma one_to_twelve: "[1..12] = [1, 2, 3, 4, 5, 6, 7, 8, 9, 10, 11, 12 :: int]"
  by code_simp

text \<open>The page constructor never raises inside the loop: the month it gets is in range.\<close>

lemma CalendarPage_rotated:
  "CalendarPage ((sm - 1 + i) mod 12 + 1) =
     Inr \<lparr>month = (sm - 1 + i) mod 12 + 1, image_url = None, note = None\<rparr>"
proof -
  have "0 \<le> (sm - 1 + i) mod 12" "(sm - 1 + i) mod 12 < 12" by simp_all
  then show ?thesis by (simp add: CalendarPage_def)
qed

lemma build_pages_eq:
  "build_pages sm is acc =
     Inr (acc @ map (\<lambda>i. \<lparr>month = (sm - 1 + i) mod 12 + 1, image_url = None, note = None\<rparr>) is)"
  by (induction "is" arbitrary: acc) (simp_all add: CalendarPage_rotated)

lemma month_cases:
  assumes "1 \<le> sm" "sm \<le> 12"
  shows "sm \<in> {1, 2, 3, 4, 5, 6, 7, 8, 9, 10, 11, 12 :: int}"
  using assms by simp presburger

lemma months_rotate:
  assumes "1 \<le> sm" "sm \<le> 12"
  shows "map (\<lambda>i. (sm - 1 + i) mod 12 + 1) [0..11] = rotate (nat (sm - 1)) [1..12]"
  using month_cases [OF assms] unfolding range12 one_to_twelve
  by (elim insertE emptyE) (simp_all add: rotate_def rotate1_def eval_nat_numeral)

lemma Calendar_valid:
  assumes "1900 \<le> y" "y \<le> 3000" "1 \<le> sm" "sm \<le> 12"
  shows "Calendar t y sm st ps ow =
     Inr \<lparr>title = t, year = y, start_month = sm, style = st, pages = ps, owner = ow\<rparr>"
  using assms by (simp add: Calendar_def)

text \<open>
  A valid request reaches \<open>create_document\<close> with the model whose pages are the twelve
  rotated months.
\<close>

lemma create_calendar_valid:
  assumes "1900 \<le> cc_year p" "cc_year p \<le> 3000" "1 \<le> cc_start_month p" "cc_start_month p \<le> 12"
  shows "create_calendar create_doc p s =
     (case create_doc ''calendar''
             \<lparr>title = cc_title p, year = cc_year p, start_month = cc_start_month p,
              style = cc_style p,
              pages = map (\<lambda>i. \<lparr>month = (cc_start_month p - 1 + i) mod 12 + 1,
                                 image_url = None, note = None\<rparr>) [0..11],
              owner = cc_owner p\<rparr> s of
        Inl x \<Rightarrow> Inl (CreateDocumentError x)
      | Inr (inserted_id, s') \<Rightarrow> Inr ([(''id'', inserted_id)], s'))"
  using assms by (simp add: create_calendar_def build_pages_eq Calendar_valid)

subsection \<open>The page search\<close>

lemma find_page_index_Some:
  "find_page_index m ps = Some i \<Longrightarrow>
     i < length ps \<and> (ps ! i) ''month'' = Some (PInt m)
     \<and> (\<forall>j<i. (ps ! j) ''month'' \<noteq> Some (PInt m))"
proof (induction ps arbitrary: i)
  case Nil
  then show ?case by simp
next
  case (Cons p ps)
  show ?case
  proof (cases "p ''month'' = Some (PInt m)")
    case True
    with Cons.prems show ?thesis by simp
  next
    case False
    with Cons.prems obtain i' where i': "find_page_index m ps = Some i'" "i = Suc i'"
      by auto
    from Cons.IH [OF i'(1)] False i'(2) show ?thesis
      by (auto simp add: nth_Cons split: nat.splits)
  qed
qed

lemma find_page_index_None:
  "find_page_index m ps = None \<longleftrightarrow> (\<forall>p\<in>set ps. p ''month'' \<noteq> Some (PInt m))"
  by (induction ps) auto

lemma find_page_index_first:
  "i < length ps \<Longrightarrow> (ps ! i) ''month'' = Some (PInt m) \<Longrightarrow>
   (\<forall>j<i. (ps ! j) ''month'' \<noteq> Some (PInt m)) \<Longrightarrow> find_page_index m ps = Some i"
proof (induction ps arbitrary: i)
  case Nil
  then show ?case by simp
next
  case (Cons p ps)
  show ?case
  proof (cases i)
    case 0
    with Cons.prems show ?thesis by simp
  next
    case (Suc i')
    with Cons.prems have "p ''month'' \<noteq> Some (PInt m)" by auto
    moreover from Suc Cons.prems have "find_page_index m ps = Some i'"
      by (intro Cons.IH) auto
    ultimately show ?thesis using Suc by simp
  qed
qed

subsection \<open>The upsert on the list of pages\<close>

lemma set_fields_eq:
  "(case pu_note pl of None \<Rightarrow> (case pu_image_url pl of None \<Rightarrow> p | Some u \<Rightarrow> p(''image_url'' \<mapsto> PStr u))
     | Some n \<Rightarrow> (case pu_image_url pl of None \<Rightarrow> p | Some u \<Rightarrow> p(''image_url'' \<mapsto> PStr u))(''note'' \<mapsto> PStr n))
   = p ++ supplied_fields pl"
  by (auto simp add: supplied_fields_def map_add_def fun_eq_iff split: option.splits)

lemma upsert_page_found:
  assumes "find_page_index m ps = Some i"
  shows "upsert_page m pl ps = ps[i := ps ! i ++ supplied_fields pl]"
proof -
  from find_page_index_Some [OF assms] have i: "i < length ps" by simp
  show ?thesis
    unfolding set_fields_eq [symmetric] using i assms
    by (simp add: upsert_page_def split: option.splits)
qed

lemma upsert_page_appended:
  assumes "find_page_index m ps = None"
  shows "upsert_page m pl ps = ps @ [[''month'' \<mapsto> PInt m] ++ supplied_fields pl]"
  unfolding set_fields_eq [symmetric] using assms
  by (simp add: upsert_page_def split: option.splits)

lemma supplied_fields_month: "supplied_fields pl ''month'' = None"
  by (simp add: supplied_fields_def)

lemma add_supplied_month: "(p ++ supplied_fields pl) ''month'' = p ''month''"
  by (simp add: map_add_def supplied_fields_month)

lemma map_add_twice: "p ++ q ++ q = p ++ (q :: 'a \<rightharpoonup> 'b)"
  by (simp add: map_add_def fun_eq_iff split: option.splits)

lemma upsert_page_idem: "upsert_page m pl (upsert_page m pl ps) = upsert_page m pl ps"
proof (cases "find_page_index m ps")
  case None
  let ?n = "[''month'' \<mapsto> PInt m] ++ supplied_fields pl"
  have one: "upsert_page m pl ps = ps @ [?n]" by (rule upsert_page_appended [OF None])
  from None have "\<forall>j<length ps. (ps ! j) ''month'' \<noteq> Some (PInt m)"
    by (simp add: find_page_index_None)
  then have "find_page_index m (ps @ [?n]) = Some (length ps)"
    by (intro find_page_index_first) (simp_all add: add_supplied_month nth_append)
  then have "upsert_page m pl (ps @ [?n]) = (ps @ [?n])[length ps := ?n ++ supplied_fields pl]"
    by (simp add: upsert_page_found)
  then show ?thesis unfolding one by (simp add: map_add_twice)
next
  case (Some i)
  let ?q = "ps ! i ++ supplied_fields pl"
  have one: "upsert_page m pl ps = ps[i := ?q]" by (rule upsert_page_found [OF Some])
  from find_page_index_Some [OF Some]
  have i: "i < length ps" "(ps ! i) ''month'' = Some (PInt m)"
    "\<forall>j<i. (ps ! j) ''month'' \<noteq> Some (PInt m)" by simp_all
  have "find_page_index m (ps[i := ?q]) = Some i"
    using i by (intro find_page_index_first) (simp_all add: add_supplied_month)
  then have "upsert_page m pl (ps[i := ?q]) = (ps[i := ?q])[i := (ps[i := ?q]) ! i ++ supplied_fields pl]"
    by (rule upsert_page_found)
  then show ?thesis unfolding one using i(1) by (simp add: map_add_twice)
qed

subsection \<open>The paths of \<open>update_calendar_page\<close>\<close>

lemma get_pages_find_one: "get_pages (d(''_id'' \<mapsto> VId oid)) = get_pages d"
  by (simp add: get_pages_def)

lemma update_calendar_page_success:
  assumes "1 \<le> m" "m \<le> 12" "coll oid = Some d" "ObjectId cid = Some oid" "get_pages d = Inr ps"
  shows "update_calendar_page ObjectId (Some coll) now cid m pl =
     (Inr ok_response,
      Some (coll(oid \<mapsto> d(''pages'' \<mapsto> VPages (upsert_page m pl ps), ''updated_at'' \<mapsto> VTime now))))"
proof -
  have "d ++ [''pages'' \<mapsto> VPages (upsert_page m pl ps), ''updated_at'' \<mapsto> VTime now]
      = d(''pages'' \<mapsto> VPages (upsert_page m pl ps), ''updated_at'' \<mapsto> VTime now)"
    by simp
  with assms show ?thesis
    by (simp add: update_calendar_page_def find_one_def get_pages_find_one update_one_set_def)
qed

lemma update_calendar_page_cases:
  obtains (fail) e where "\<And>t. update_calendar_page ObjectId db t cid m pl = (Inl e, db)"
  | (ok) coll oid d ps where "1 \<le> m" "m \<le> 12" "db = Some coll" "ObjectId cid = Some oid"
      "coll oid = Some d" "get_pages d = Inr ps"
proof (cases "m < 1 \<or> m > 12")
  case True
  then show ?thesis by (intro fail) (simp add: update_calendar_page_def)
next
  case m: False
  show ?thesis
  proof (cases db)
    case None
    with m show ?thesis by (intro fail) (simp add: update_calendar_page_def)
  next
    case (Some coll)
    show ?thesis
    proof (cases "ObjectId cid")
      case None
      with m Some show ?thesis by (intro fail) (simp add: update_calendar_page_def)
    next
      case oid: (Some oid)
      show ?thesis
      proof (cases "coll oid")
        case None
        with m Some oid show ?thesis
          by (intro fail) (simp add: update_calendar_page_def find_one_def)
      next
        case d: (Some d)
        show ?thesis
        proof (cases "get_pages d")
          case (Inl e)
          with m Some oid d show ?thesis
            by (intro fail) (simp add: update_calendar_page_def find_one_def get_pages_find_one)
        next
          case (Inr ps)
          with m Some oid d show ?thesis
            by (intro ok [where coll = coll and oid = oid and d = d and ps = ps]) simp_all
        qed
      qed
    qed
  qed
qed

subsection \<open>One page per month\<close>

lemma month_keys_Nil: "month_keys [] = []"
  by (simp add: month_keys_def map_filter_simps)

lemma month_keys_Cons:
  "month_keys (p # ps) =
     (case p ''month'' of Some (PInt m) \<Rightarrow> m # month_keys ps | _ \<Rightarrow> month_keys ps)"
  by (simp add: month_keys_def map_filter_simps split: option.splits pval.splits)

lemma month_keys_append: "month_keys (ps @ qs) = month_keys ps @ month_keys qs"
  by (induction ps) (simp_all add: month_keys_Nil month_keys_Cons split: option.splits pval.splits)

lemma set_month_keys:
  "m \<in> set (month_keys ps) \<longleftrightarrow> (\<exists>p\<in>set ps. p ''month'' = Some (PInt m))"
  by (induction ps) (auto simp add: month_keys_Nil month_keys_Cons split: option.splits pval.splits)

lemma month_keys_update:
  "i < length ps \<Longrightarrow> q ''month'' = (ps ! i) ''month'' \<Longrightarrow> month_keys (ps[i := q]) = month_keys ps"
proof (induction ps arbitrary: i)
  case Nil
  then show ?case by simp
next
  case (Cons p ps)
  show ?case
  proof (cases i)
    case 0
    with Cons.prems show ?thesis by (simp add: month_keys_Cons)
  next
    case (Suc j)
    with Cons.prems have "j < length ps" "q ''month'' = (ps ! j) ''month''" by simp_all
    then have "month_keys (ps[j := q]) = month_keys ps" by (rule Cons.IH)
    with Suc show ?thesis
      by (simp add: month_keys_Cons split: option.splits pval.splits)
  qed
qed

lemma upsert_page_one_per_month:
  assumes "one_page_per_month ps"
  shows "one_page_per_month (upsert_page m pl ps)"
proof (cases "find_page_index m ps")
  case None
  then have "m \<notin> set (month_keys ps)"
    by (simp add: set_month_keys find_page_index_None)
  moreover have "month_keys [[''month'' \<mapsto> PInt m] ++ supplied_fields pl] = [m]"
    by (simp add: month_keys_Cons month_keys_Nil add_supplied_month)
  ultimately show ?thesis
    using assms unfolding upsert_page_appended [OF None]
    by (simp add: one_page_per_month_def month_keys_append)
next
  case (Some i)
  from find_page_index_Some [OF Some] have "i < length ps" by simp
  then have "month_keys (ps[i := ps ! i ++ supplied_fields pl]) = month_keys ps"
    by (rule month_keys_update) (rule add_supplied_month)
  then show ?thesis
    using assms unfolding upsert_page_found [OF Some]
    by (simp add: one_page_per_month_def)
qed

lemma month_keys_model_dump: "month_keys (map model_dump ps) = map month ps"
  by (induction ps) (simp_all add: month_keys_Nil month_keys_Cons model_dump_def)

lemma update_calendar_page_keeps_document:
  assumes "coll oid = Some d" "get_pages d = Inr ps" "one_page_per_month ps"
  shows "\<exists>coll' d' ps'.
       snd (update_calendar_page ObjectId (Some coll) now cid m pl) = Some coll'
     \<and> coll' oid = Some d' \<and> get_pages d' = Inr ps' \<and> one_page_per_month ps'"
proof (cases rule: update_calendar_page_cases [of ObjectId "Some coll" cid m pl])
  case (fail e)
  then have "snd (update_calendar_page ObjectId (Some coll) now cid m pl) = Some coll" by simp
  with assms show ?thesis by (intro exI [of _ coll] exI [of _ d] exI [of _ ps] conjI)
next
  case (ok coll0 oid0 d0 ps0)
  from ok(3) have c: "coll0 = coll" by simp
  let ?ps' = "upsert_page m pl ps0"
  let ?d' = "d0(''pages'' \<mapsto> VPages ?ps', ''updated_at'' \<mapsto> VTime now)"
  let ?coll' = "coll(oid0 \<mapsto> ?d')"
  have "update_calendar_page ObjectId (Some coll) now cid m pl = (Inr ok_response, Some ?coll')"
    using ok(1,2) ok(5) [unfolded c] ok(4,6) by (rule update_calendar_page_success)
  then have run: "snd (update_calendar_page ObjectId (Some coll) now cid m pl) = Some ?coll'"
    by simp
  show ?thesis
  proof (cases "oid = oid0")
    case True
    with assms(1,2) ok(5,6) c have "ps0 = ps" by simp
    with assms(3) have "one_page_per_month ?ps'" by (simp add: upsert_page_one_per_month)
    moreover have "get_pages ?d' = Inr ?ps'" by (simp add: get_pages_def)
    moreover from True have "?coll' oid = Some ?d'" by simp
    ultimately show ?thesis using run
      by (intro exI [of _ ?coll'] exI [of _ ?d'] exI [of _ ?ps'] conjI)
  next
    case False
    then have "?coll' oid = Some d" using assms(1) by simp
    with run assms(2,3) show ?thesis
      by (intro exI [of _ ?coll'] exI [of _ d] exI [of _ ps] conjI)
  qed
qed

subsection \<open>The example store\<close>

lemma hex_demo_id: "hex_ObjectId demo_id = Some demo_id"
  by (simp add: hex_ObjectId_def demo_id_def)

lemma hex_not_an_id: "hex_ObjectId ''not-an-id'' = None"
  by (simp add: hex_ObjectId_def)

lemma hex_other_id: "hex_ObjectId other_id = Some other_id"
  by (simp add: hex_ObjectId_def other_id_def)

lemma demo_coll_demo_id: "demo_coll demo_id = Some demo_doc"
  by (simp add: demo_coll_def)

lemma demo_coll_other_id: "demo_coll other_id = None"
  by (simp add: demo_coll_def demo_id_def other_id_def)

lemma demo_doc_pages: "demo_doc ''pages'' = Some (VPages demo_pages)"
  by (simp add: demo_doc_def)

lemma get_pages_demo_doc: "get_pages demo_doc = Inr demo_pages"
  by (simp add: get_pages_def demo_doc_pages)

lemma demo_pages_no_july: "\<forall>p\<in>set demo_pages. p ''month'' \<noteq> Some (PInt 7)"
  by (simp add: demo_pages_def)

lemma demo_pages_keys: "month_keys demo_pages = [4, 5]"
  by (simp add: month_keys_Cons month_keys_Nil demo_pages_def)

section \<open>Properties\<close>

subsection \<open>The twelve pages of a new calendar\<close>

text \<open>
  C1. For a request with \<open>year\<close> in 1900..3000 and \<open>start_month\<close> in 1..12,
  \<open>create_calendar\<close> hands \<open>create_document\<close> a calendar with exactly 12 pages; the page
  at position \<open>i\<close> has the month \<open>((start_month - 1 + i) mod 12) + 1\<close> and neither image
  nor note; the months are 1..12 rotated to start at \<open>start_month\<close>, each exactly once.
\<close>

theorem create_calendar_builds_twelve_pages:
  assumes "1900 \<le> cc_year p" "cc_year p \<le> 3000" "1 \<le> cc_start_month p" "cc_start_month p \<le> 12"
  shows "\<exists>ps. length ps = 12
     \<and> (\<forall>i<12. ps ! i = \<lparr>month = (cc_start_month p - 1 + int i) mod 12 + 1,
                           image_url = None, note = None\<rparr>)
     \<and> map month ps = rotate (nat (cc_start_month p - 1)) [1..12]
     \<and> distinct (map month ps) \<and> set (map month ps) = {1..12}
     \<and> create_calendar create_doc p s =
         (case create_doc ''calendar''
                 \<lparr>title = cc_title p, year = cc_year p, start_month = cc_start_month p,
                  style = cc_style p, pages = ps, owner = cc_owner p\<rparr> s of
            Inl x \<Rightarrow> Inl (CreateDocumentError x)
          | Inr (inserted_id, s') \<Rightarrow> Inr ([(''id'', inserted_id)], s'))"
proof -
  let ?sm = "cc_start_month p"
  let ?ps = "map (\<lambda>i. \<lparr>month = (?sm - 1 + i) mod 12 + 1, image_url = None, note = None\<rparr>) [0..11]"
  have len: "length ?ps = 12" by (simp add: range12)
  have nth: "\<forall>i<12. ?ps ! i = \<lparr>month = (?sm - 1 + int i) mod 12 + 1, image_url = None, note = None\<rparr>"
  proof (intro allI impI)
    fix i :: nat assume i: "i < 12"
    then have "[0..11] ! i = int i" by (simp add: nth_upto)
    with i show "?ps ! i = \<lparr>month = (?sm - 1 + int i) mod 12 + 1, image_url = None, note = None\<rparr>"
      by simp
  qed
  have months: "map month ?ps = map (\<lambda>i. (?sm - 1 + i) mod 12 + 1) [0..11]"
    by (simp add: comp_def)
  have rot: "map month ?ps = rotate (nat (?sm - 1)) [1..12]"
    unfolding months using assms(3,4) by (rule months_rotate)
  have perm: "distinct (map month ?ps) \<and> set (map month ?ps) = {1..12}"
    unfolding rot by simp
  have run: "create_calendar create_doc p s =
         (case create_doc ''calendar''
                 \<lparr>title = cc_title p, year = cc_year p, start_month = cc_start_month p,
                  style = cc_style p, pages = ?ps, owner = cc_owner p\<rparr> s of
            Inl x \<Rightarrow> Inl (CreateDocumentError x)
          | Inr (inserted_id, s') \<Rightarrow> Inr ([(''id'', inserted_id)], s'))"
    using assms by (rule create_calendar_valid)
  from len nth rot perm run show ?thesis by blast
qed

theorem create_calendar_builds_twelve_pages_witness:
  "1900 \<le> cc_year demo_create \<and> cc_year demo_create \<le> 3000
   \<and> 1 \<le> cc_start_month demo_create \<and> cc_start_month demo_create \<le> 12
   \<and> (\<exists>ps. map month ps = [3, 4, 5, 6, 7, 8, 9, 10, 11, 12, 1, 2]
        \<and> map image_url ps = replicate 12 None \<and> map note ps = replicate 12 None
        \<and> create_calendar recording_store demo_create [] =
            Inr ([(''id'', ''id1'')],
                 [\<lparr>title = ''Team 2025'', year = 2025, start_month = 3, style = ''classic'',
                   pages = ps, owner = None\<rparr>]))"
proof -
  have h: "1900 \<le> cc_year demo_create" "cc_year demo_create \<le> 3000"
    "1 \<le> cc_start_month demo_create" "cc_start_month demo_create \<le> 12"
    by (simp_all add: demo_create_def)
  from create_calendar_builds_twelve_pages [OF h, of recording_store "[]"]
  obtain ps where len: "length ps = 12"
    and nth: "\<forall>i<12. ps ! i = \<lparr>month = (cc_start_month demo_create - 1 + int i) mod 12 + 1,
                               image_url = None, note = None\<rparr>"
    and rot: "map month ps = rotate (nat (cc_start_month demo_create - 1)) [1..12]"
    and run: "create_calendar recording_store demo_create [] =
         (case recording_store ''calendar''
                 \<lparr>title = cc_title demo_create, year = cc_year demo_create,
                  start_month = cc_start_month demo_create,
                  style = cc_style demo_create, pages = ps, owner = cc_owner demo_create\<rparr> [] of
            Inl x \<Rightarrow> Inl (CreateDocumentError x)
          | Inr (inserted_id, s') \<Rightarrow> Inr ([(''id'', inserted_id)], s'))"
    by blast
  have m: "map month ps = [3, 4, 5, 6, 7, 8, 9, 10, 11, 12, 1, 2]"
    unfolding rot one_to_twelve
    by (simp add: demo_create_def rotate_def rotate1_def eval_nat_numeral)
  have i: "map image_url ps = replicate 12 None"
    using len nth by (intro nth_equalityI) simp_all
  have n: "map note ps = replicate 12 None"
    using len nth by (intro nth_equalityI) simp_all
  have r: "create_calendar recording_store demo_create [] =
            Inr ([(''id'', ''id1'')],
                 [\<lparr>title = ''Team 2025'', year = 2025, start_month = 3, style = ''classic'',
                   pages = ps, owner = None\<rparr>])"
    unfolding run by (simp add: recording_store_def demo_create_def)
  from m i n r have "\<exists>ps. map month ps = [3, 4, 5, 6, 7, 8, 9, 10, 11, 12, 1, 2]
        \<and> map image_url ps = replicate 12 None \<and> map note ps = replicate 12 None
        \<and> create_calendar recording_store demo_create [] =
            Inr ([(''id'', ''id1'')],
                 [\<lparr>title = ''Team 2025'', year = 2025, start_month = 3, style = ''classic'',
                   pages = ps, owner = None\<rparr>])"
    by (intro exI [of _ ps] conjI)
  with h show ?thesis by (intro conjI)
qed

subsection \<open>The frame of a page update\<close>

text \<open>
  C2. When the stored calendar has a page for the month (\<open>i\<close> is the first index of such
  a page), the call succeeds and the store differs from the old one in this document
  only; in the document only \<open>pages\<close> and \<open>updated_at\<close> change; in the list of pages only
  the page at \<open>i\<close> changes; in that page only \<open>image_url\<close> and \<open>note\<close> can change, each
  only when the request supplies it, and it then holds the supplied value. So a request
  with only a note leaves the stored image untouched.
\<close>

theorem update_calendar_page_frame:
  assumes "1 \<le> m" "m \<le> 12" "ObjectId cid = Some oid" "coll oid = Some d"
    and "d ''pages'' = Some (VPages ps)"
    and "i < length ps" "(ps ! i) ''month'' = Some (PInt m)"
    and "\<forall>j<i. (ps ! j) ''month'' \<noteq> Some (PInt m)"
  shows "\<exists>d' ps'.
       update_calendar_page ObjectId (Some coll) now cid m pl
         = (Inr ok_response, Some (coll(oid \<mapsto> d')))
     \<and> (\<forall>k. k \<noteq> ''pages'' \<and> k \<noteq> ''updated_at'' \<longrightarrow> d' k = d k)
     \<and> d' ''updated_at'' = Some (VTime now)
     \<and> d' ''pages'' = Some (VPages ps')
     \<and> length ps' = length ps
     \<and> (\<forall>j<length ps. j \<noteq> i \<longrightarrow> ps' ! j = ps ! j)
     \<and> (\<forall>k. k \<noteq> ''image_url'' \<and> k \<noteq> ''note'' \<longrightarrow> (ps' ! i) k = (ps ! i) k)
     \<and> (ps' ! i) ''image_url''
          = (case pu_image_url pl of None \<Rightarrow> (ps ! i) ''image_url'' | Some u \<Rightarrow> Some (PStr u))
     \<and> (ps' ! i) ''note''
          = (case pu_note pl of None \<Rightarrow> (ps ! i) ''note'' | Some n \<Rightarrow> Some (PStr n))"
proof -
  let ?ps' = "upsert_page m pl ps"
  let ?d' = "d(''pages'' \<mapsto> VPages ?ps', ''updated_at'' \<mapsto> VTime now)"
  have gp: "get_pages d = Inr ps" using assms(5) by (simp add: get_pages_def)
  have run: "update_calendar_page ObjectId (Some coll) now cid m pl
         = (Inr ok_response, Some (coll(oid \<mapsto> ?d')))"
    using assms(1,2,4,3) gp by (rule update_calendar_page_success)
  have idx: "find_page_index m ps = Some i"
    by (rule find_page_index_first [OF assms(6,7,8)])
  have ps': "?ps' = ps[i := ps ! i ++ supplied_fields pl]"
    by (rule upsert_page_found [OF idx])
  have other: "\<forall>k. k \<noteq> ''pages'' \<and> k \<noteq> ''updated_at'' \<longrightarrow> ?d' k = d k" by simp
  have upd: "?d' ''updated_at'' = Some (VTime now)" by simp
  have pg: "?d' ''pages'' = Some (VPages ?ps')" by simp
  have len: "length ?ps' = length ps" unfolding ps' by simp
  have rest: "\<forall>j<length ps. j \<noteq> i \<longrightarrow> ?ps' ! j = ps ! j" unfolding ps' by simp
  have at: "?ps' ! i = ps ! i ++ supplied_fields pl" unfolding ps' using assms(6) by simp
  have keys: "\<forall>k. k \<noteq> ''image_url'' \<and> k \<noteq> ''note'' \<longrightarrow> (?ps' ! i) k = (ps ! i) k"
    unfolding at by (simp add: map_add_def supplied_fields_def)
  have img: "(?ps' ! i) ''image_url''
          = (case pu_image_url pl of None \<Rightarrow> (ps ! i) ''image_url'' | Some u \<Rightarrow> Some (PStr u))"
    unfolding at by (simp add: map_add_def supplied_fields_def split: option.splits)
  have nt: "(?ps' ! i) ''note''
          = (case pu_note pl of None \<Rightarrow> (ps ! i) ''note'' | Some n \<Rightarrow> Some (PStr n))"
    unfolding at by (simp add: map_add_def supplied_fields_def split: option.splits)
  from run other upd pg len rest keys img nt show ?thesis
    by (intro exI [of _ ?d'] exI [of _ ?ps'] conjI)
qed

theorem update_calendar_page_frame_witness:
  "1 \<le> (4::int) \<and> (4::int) \<le> 12 \<and> hex_ObjectId demo_id = Some demo_id
   \<and> demo_coll demo_id = Some demo_doc \<and> demo_doc ''pages'' = Some (VPages demo_pages)
   \<and> 0 < length demo_pages \<and> (demo_pages ! 0) ''month'' = Some (PInt 4)
   \<and> (\<exists>d' ps'. update_calendar_page hex_ObjectId (Some demo_coll) 11 demo_id 4 note_only
                   = (Inr ok_response, Some (demo_coll(demo_id \<mapsto> d')))
        \<and> d' ''title'' = Some (VStr ''Team 2025'')
        \<and> d' ''updated_at'' = Some (VTime 11)
        \<and> d' ''pages'' = Some (VPages ps')
        \<and> length ps' = 2
        \<and> ps' ! 1 = demo_pages ! 1
        \<and> (ps' ! 0) ''month'' = Some (PInt 4)
        \<and> (ps' ! 0) ''image_url'' = Some (PStr ''/uploads/x.jpg'')
        \<and> (ps' ! 0) ''note'' = Some (PStr ''hello''))"
proof -
  have h: "1 \<le> (4::int)" "(4::int) \<le> 12" "hex_ObjectId demo_id = Some demo_id"
    "demo_coll demo_id = Some demo_doc" "demo_doc ''pages'' = Some (VPages demo_pages)"
    "0 < length demo_pages" "(demo_pages ! 0) ''month'' = Some (PInt 4)"
    "\<forall>j<0. (demo_pages ! j) ''month'' \<noteq> Some (PInt 4)"
    by (simp_all add: hex_demo_id demo_coll_def demo_doc_pages demo_pages_def)
  from update_calendar_page_frame
         [where ObjectId = hex_ObjectId and coll = demo_coll and cid = demo_id and oid = demo_id
            and d = demo_doc and ps = demo_pages and i = 0 and m = 4 and now = 11
            and pl = note_only, OF h]
  obtain d' ps' where r:
    "update_calendar_page hex_ObjectId (Some demo_coll) 11 demo_id 4 note_only
         = (Inr ok_response, Some (demo_coll(demo_id \<mapsto> d')))
    \<and> (\<forall>k. k \<noteq> ''pages'' \<and> k \<noteq> ''updated_at'' \<longrightarrow> d' k = demo_doc k)
    \<and> d' ''updated_at'' = Some (VTime 11)
    \<and> d' ''pages'' = Some (VPages ps')
    \<and> length ps' = length demo_pages
    \<and> (\<forall>j<length demo_pages. j \<noteq> 0 \<longrightarrow> ps' ! j = demo_pages ! j)
    \<and> (\<forall>k. k \<noteq> ''image_url'' \<and> k \<noteq> ''note'' \<longrightarrow> (ps' ! 0) k = (demo_pages ! 0) k)
    \<and> (ps' ! 0) ''image_url''
          = (case pu_image_url note_only of None \<Rightarrow> (demo_pages ! 0) ''image_url'' | Some u \<Rightarrow> Some (PStr u))
    \<and> (ps' ! 0) ''note''
          = (case pu_note note_only of None \<Rightarrow> (demo_pages ! 0) ''note'' | Some n \<Rightarrow> Some (PStr n))"
    by (elim exE)
  have t: "d' ''title'' = Some (VStr ''Team 2025'')" using r by (simp add: demo_doc_def)
  have l: "length ps' = 2" using r by (simp add: demo_pages_def)
  have o: "ps' ! 1 = demo_pages ! 1" using r by (simp add: demo_pages_def)
  have mo: "(ps' ! 0) ''month'' = Some (PInt 4)" using r by (simp add: demo_pages_def)
  have im: "(ps' ! 0) ''image_url'' = Some (PStr ''/uploads/x.jpg'')"
    using r by (simp add: demo_pages_def note_only_def)
  have no: "(ps' ! 0) ''note'' = Some (PStr ''hello'')"
    using r by (simp add: demo_pages_def note_only_def)
  from r t l o mo im no
  have "\<exists>d' ps'. update_calendar_page hex_ObjectId (Some demo_coll) 11 demo_id 4 note_only
                   = (Inr ok_response, Some (demo_coll(demo_id \<mapsto> d')))
        \<and> d' ''title'' = Some (VStr ''Team 2025'')
        \<and> d' ''updated_at'' = Some (VTime 11)
        \<and> d' ''pages'' = Some (VPages ps')
        \<and> length ps' = 2
        \<and> ps' ! 1 = demo_pages ! 1
        \<and> (ps' ! 0) ''month'' = Some (PInt 4)
        \<and> (ps' ! 0) ''image_url'' = Some (PStr ''/uploads/x.jpg'')
        \<and> (ps' ! 0) ''note'' = Some (PStr ''hello'')"
    by (intro exI [of _ d'] exI [of _ ps'] conjI) simp_all
  with h(1-7) show ?thesis by (intro conjI)
qed

subsection \<open>Idempotence of the page update\<close>

text \<open>
  C3. Whatever the store, the identifier, the month and the payload, a second
  \<open>update_calendar_page\<close> with the same month and payload leaves the stored \<open>pages\<close> of
  every document as the first call left them, and answers as the first call did; the
  two calls may read different clocks.
\<close>

theorem update_calendar_page_idempotent:
  "stored_pages (snd (update_calendar_page ObjectId
                        (snd (update_calendar_page ObjectId db now1 cid m pl)) now2 cid m pl))
     = stored_pages (snd (update_calendar_page ObjectId db now1 cid m pl))
   \<and> fst (update_calendar_page ObjectId
             (snd (update_calendar_page ObjectId db now1 cid m pl)) now2 cid m pl)
     = fst (update_calendar_page ObjectId db now1 cid m pl)"
proof (cases rule: update_calendar_page_cases [of ObjectId db cid m pl])
  case (fail e)
  then show ?thesis by simp
next
  case (ok coll oid d ps)
  let ?ps1 = "upsert_page m pl ps"
  let ?d1 = "d(''pages'' \<mapsto> VPages ?ps1, ''updated_at'' \<mapsto> VTime now1)"
  let ?coll1 = "coll(oid \<mapsto> ?d1)"
  have one: "update_calendar_page ObjectId db now1 cid m pl = (Inr ok_response, Some ?coll1)"
    unfolding ok(3) using ok(1,2,5,4,6) by (rule update_calendar_page_success)
  have c1: "?coll1 oid = Some ?d1" by simp
  have g1: "get_pages ?d1 = Inr ?ps1" by (simp add: get_pages_def)
  have two: "update_calendar_page ObjectId (Some ?coll1) now2 cid m pl =
     (Inr ok_response,
      Some (?coll1(oid \<mapsto> ?d1(''pages'' \<mapsto> VPages (upsert_page m pl ?ps1),
                               ''updated_at'' \<mapsto> VTime now2))))"
    using ok(1,2) c1 ok(4) g1 by (rule update_calendar_page_success)
  show ?thesis
    unfolding one snd_conv fst_conv two
    by (simp add: stored_pages_def upsert_page_idem fun_eq_iff)
qed

theorem update_calendar_page_idempotent_witness:
  "stored_pages (snd (update_calendar_page hex_ObjectId
                        (snd (update_calendar_page hex_ObjectId (Some demo_coll) 11 demo_id 7 note_only))
                        12 demo_id 7 note_only))
     = stored_pages (snd (update_calendar_page hex_ObjectId (Some demo_coll) 11 demo_id 7 note_only))
   \<and> fst (update_calendar_page hex_ObjectId (Some demo_coll) 11 demo_id 7 note_only)
       = Inr ok_response"
proof -
  have "update_calendar_page hex_ObjectId (Some demo_coll) 11 demo_id 7 note_only
      = (Inr ok_response,
         Some (demo_coll(demo_id \<mapsto> demo_doc(''pages'' \<mapsto> VPages (upsert_page 7 note_only demo_pages),
                                                ''updated_at'' \<mapsto> VTime 11))))"
    by (rule update_calendar_page_success)
       (simp_all add: demo_coll_demo_id hex_demo_id get_pages_demo_doc)
  with update_calendar_page_idempotent
         [where ObjectId = hex_ObjectId and db = "Some demo_coll" and ?now1.0 = 11 and ?now2.0 = 12
            and cid = demo_id and m = 7 and pl = note_only]
  show ?thesis by simp
qed

subsection \<open>Appending the page of a missing month\<close>

text \<open>
  C4. When the calendar exists and none of its pages has the month, the call succeeds
  and the new list of pages is the old list followed by exactly one new page; that page
  has the month, the image and the note of the request where supplied, and no other entry.
\<close>

theorem update_calendar_page_appends:
  assumes "1 \<le> m" "m \<le> 12" "ObjectId cid = Some oid" "coll oid = Some d"
    and "get_pages d = Inr ps"
    and "\<forall>p\<in>set ps. p ''month'' \<noteq> Some (PInt m)"
  shows "\<exists>d' new.
       update_calendar_page ObjectId (Some coll) now cid m pl
         = (Inr ok_response, Some (coll(oid \<mapsto> d')))
     \<and> d' ''pages'' = Some (VPages (ps @ [new]))
     \<and> new ''month'' = Some (PInt m)
     \<and> new ''image_url'' = map_option PStr (pu_image_url pl)
     \<and> new ''note'' = map_option PStr (pu_note pl)
     \<and> (\<forall>k. k \<noteq> ''month'' \<and> k \<noteq> ''image_url'' \<and> k \<noteq> ''note'' \<longrightarrow> new k = None)"
proof -
  let ?new = "[''month'' \<mapsto> PInt m] ++ supplied_fields pl"
  let ?d' = "d(''pages'' \<mapsto> VPages (upsert_page m pl ps), ''updated_at'' \<mapsto> VTime now)"
  have run: "update_calendar_page ObjectId (Some coll) now cid m pl
         = (Inr ok_response, Some (coll(oid \<mapsto> ?d')))"
    using assms(1,2,4,3,5) by (rule update_calendar_page_success)
  have "find_page_index m ps = None" using assms(6) by (simp add: find_page_index_None)
  then have ps': "upsert_page m pl ps = ps @ [?new]" by (rule upsert_page_appended)
  have pg: "?d' ''pages'' = Some (VPages (ps @ [?new]))" unfolding ps' by simp
  have mo: "?new ''month'' = Some (PInt m)" by (simp add: map_add_def supplied_fields_def)
  have im: "?new ''image_url'' = map_option PStr (pu_image_url pl)"
    by (simp add: map_add_def supplied_fields_def split: option.splits)
  have no: "?new ''note'' = map_option PStr (pu_note pl)"
    by (simp add: map_add_def supplied_fields_def split: option.splits)
  have ot: "\<forall>k. k \<noteq> ''month'' \<and> k \<noteq> ''image_url'' \<and> k \<noteq> ''note'' \<longrightarrow> ?new k = None"
    by (simp add: map_add_def supplied_fields_def)
  from run pg mo im no ot show ?thesis
    by (intro exI [of _ ?d'] exI [of _ ?new] conjI)
qed

theorem update_calendar_page_appends_witness:
  "1 \<le> (7::int) \<and> (7::int) \<le> 12 \<and> hex_ObjectId demo_id = Some demo_id
   \<and> demo_coll demo_id = Some demo_doc \<and> get_pages demo_doc = Inr demo_pages
   \<and> 7 \<notin> set (month_keys demo_pages)
   \<and> (\<exists>d' new. update_calendar_page hex_ObjectId (Some demo_coll) 11 demo_id 7 note_only
                    = (Inr ok_response, Some (demo_coll(demo_id \<mapsto> d')))
        \<and> d' ''pages'' = Some (VPages (demo_pages @ [new]))
        \<and> new ''month'' = Some (PInt 7)
        \<and> new ''image_url'' = None
        \<and> new ''note'' = Some (PStr ''hello''))"
proof -
  have h: "1 \<le> (7::int)" "(7::int) \<le> 12" "hex_ObjectId demo_id = Some demo_id"
    "demo_coll demo_id = Some demo_doc" "get_pages demo_doc = Inr demo_pages"
    "\<forall>p\<in>set demo_pages. p ''month'' \<noteq> Some (PInt 7)"
    by (simp_all add: hex_demo_id demo_coll_demo_id get_pages_demo_doc demo_pages_no_july)
  from update_calendar_page_appends
         [where ObjectId = hex_ObjectId and coll = demo_coll and cid = demo_id and oid = demo_id
            and d = demo_doc and ps = demo_pages and m = 7 and now = 11 and pl = note_only, OF h]
  obtain d' new where r:
    "update_calendar_page hex_ObjectId (Some demo_coll) 11 demo_id 7 note_only
         = (Inr ok_response, Some (demo_coll(demo_id \<mapsto> d')))
     \<and> d' ''pages'' = Some (VPages (demo_pages @ [new]))
     \<and> new ''month'' = Some (PInt 7)
     \<and> new ''image_url'' = map_option PStr (pu_image_url note_only)
     \<and> new ''note'' = map_option PStr (pu_note note_only)
     \<and> (\<forall>k. k \<noteq> ''month'' \<and> k \<noteq> ''image_url'' \<and> k \<noteq> ''note'' \<longrightarrow> new k = None)"
    by (elim exE)
  then have "update_calendar_page hex_ObjectId (Some demo_coll) 11 demo_id 7 note_only
                    = (Inr ok_response, Some (demo_coll(demo_id \<mapsto> d')))
        \<and> d' ''pages'' = Some (VPages (demo_pages @ [new]))
        \<and> new ''month'' = Some (PInt 7)
        \<and> new ''image_url'' = None
        \<and> new ''note'' = Some (PStr ''hello'')"
    by (simp add: note_only_def)
  then have "\<exists>d' new. update_calendar_page hex_ObjectId (Some demo_coll) 11 demo_id 7 note_only
                    = (Inr ok_response, Some (demo_coll(demo_id \<mapsto> d')))
        \<and> d' ''pages'' = Some (VPages (demo_pages @ [new]))
        \<and> new ''month'' = Some (PInt 7)
        \<and> new ''image_url'' = None
        \<and> new ''note'' = Some (PStr ''hello'')"
    by (intro exI [of _ d'] exI [of _ new])
  moreover have "7 \<notin> set (month_keys demo_pages)" by (simp add: demo_pages_keys)
  ultimately show ?thesis using h(1-5) by (intro conjI)
qed

subsection \<open>At most one page per month\<close>

text \<open>
  C5. Take any calendar of the store whose pages hold at most one page per month
  (a document without a \<open>pages\<close> entry counts with the empty list), whatever the other
  documents hold. After any call of \<open>update_calendar_page\<close>, whether it fails, updates
  this calendar or updates another one, the calendar is still in the store and its
  pages still hold at most one page per month. And the pages that \<open>create_calendar\<close>
  builds for a valid request have pairwise distinct months, so their dictionaries hold
  at most one page per month.
\<close>

theorem one_page_per_month_preserved:
  "(coll oid = Some d \<and> get_pages d = Inr ps \<and> one_page_per_month ps \<longrightarrow>
      (\<exists>coll' d' ps'.
           snd (update_calendar_page ObjectId (Some coll) now cid m pl) = Some coll'
         \<and> coll' oid = Some d' \<and> get_pages d' = Inr ps' \<and> one_page_per_month ps'))
   \<and> (1900 \<le> cc_year p \<and> cc_year p \<le> 3000 \<and> 1 \<le> cc_start_month p \<and> cc_start_month p \<le> 12 \<longrightarrow>
        (\<exists>ps. create_calendar create_doc p s =
                 (case create_doc ''calendar''
                         \<lparr>title = cc_title p, year = cc_year p, start_month = cc_start_month p,
                          style = cc_style p, pages = ps, owner = cc_owner p\<rparr> s of
                    Inl x \<Rightarrow> Inl (CreateDocumentError x)
                  | Inr (inserted_id, s') \<Rightarrow> Inr ([(''id'', inserted_id)], s'))
             \<and> distinct (map month ps)
             \<and> one_page_per_month (map model_dump ps)))"
proof (intro conjI impI)
  assume "coll oid = Some d \<and> get_pages d = Inr ps \<and> one_page_per_month ps"
  then have "coll oid = Some d" "get_pages d = Inr ps" "one_page_per_month ps" by simp_all
  then show "\<exists>coll' d' ps'.
           snd (update_calendar_page ObjectId (Some coll) now cid m pl) = Some coll'
         \<and> coll' oid = Some d' \<and> get_pages d' = Inr ps' \<and> one_page_per_month ps'"
    by (rule update_calendar_page_keeps_document)
next
  assume v: "1900 \<le> cc_year p \<and> cc_year p \<le> 3000 \<and> 1 \<le> cc_start_month p \<and> cc_start_month p \<le> 12"
  let ?sm = "cc_start_month p"
  let ?ps = "map (\<lambda>i. \<lparr>month = (?sm - 1 + i) mod 12 + 1, image_url = None, note = None\<rparr>) [0..11]"
  have run: "create_calendar create_doc p s =
                 (case create_doc ''calendar''
                         \<lparr>title = cc_title p, year = cc_year p, start_month = cc_start_month p,
                          style = cc_style p, pages = ?ps, owner = cc_owner p\<rparr> s of
                    Inl x \<Rightarrow> Inl (CreateDocumentError x)
                  | Inr (inserted_id, s') \<Rightarrow> Inr ([(''id'', inserted_id)], s'))"
    using v by (intro create_calendar_valid) simp_all
  have "map month ?ps = map (\<lambda>i. (?sm - 1 + i) mod 12 + 1) [0..11]"
    by (simp add: comp_def)
  also have "\<dots> = rotate (nat (?sm - 1)) [1..12]"
    using v by (intro months_rotate) simp_all
  finally have d: "distinct (map month ?ps)" by simp
  then have o: "one_page_per_month (map model_dump ?ps)"
    unfolding one_page_per_month_def month_keys_model_dump .
  from run d o show "\<exists>ps. create_calendar create_doc p s =
                 (case create_doc ''calendar''
                         \<lparr>title = cc_title p, year = cc_year p, start_month = cc_start_month p,
                          style = cc_style p, pages = ps, owner = cc_owner p\<rparr> s of
                    Inl x \<Rightarrow> Inl (CreateDocumentError x)
                  | Inr (inserted_id, s') \<Rightarrow> Inr ([(''id'', inserted_id)], s'))
             \<and> distinct (map month ps)
             \<and> one_page_per_month (map model_dump ps)"
    by (intro exI [of _ ?ps] conjI)
qed

theorem one_page_per_month_preserved_witness:
  "demo_coll demo_id = Some demo_doc \<and> get_pages demo_doc = Inr demo_pages
   \<and> one_page_per_month demo_pages
   \<and> (\<exists>coll' d' ps'.
           snd (update_calendar_page hex_ObjectId (Some demo_coll) 11 demo_id 7 note_only) = Some coll'
         \<and> coll' demo_id = Some d' \<and> get_pages d' = Inr ps' \<and> one_page_per_month ps')
   \<and> 1900 \<le> cc_year demo_create \<and> cc_year demo_create \<le> 3000
   \<and> 1 \<le> cc_start_month demo_create \<and> cc_start_month demo_create \<le> 12
   \<and> (\<exists>ps. create_calendar recording_store demo_create [] =
              Inr ([(''id'', ''id1'')],
                   [\<lparr>title = ''Team 2025'', year = 2025, start_month = 3, style = ''classic'',
                     pages = ps, owner = None\<rparr>])
          \<and> distinct (map month ps)
          \<and> one_page_per_month (map model_dump ps))"
proof -
  note inst = one_page_per_month_preserved
      [where coll = demo_coll and oid = demo_id and d = demo_doc and ps = demo_pages
         and ObjectId = hex_ObjectId and now = 11 and cid = demo_id
         and m = 7 and pl = note_only and p = demo_create and create_doc = recording_store
         and s = "[]"]
  have v: "1900 \<le> cc_year demo_create \<and> cc_year demo_create \<le> 3000
      \<and> 1 \<le> cc_start_month demo_create \<and> cc_start_month demo_create \<le> 12"
    by (simp add: demo_create_def)
  have z: "one_page_per_month demo_pages"
    by (simp add: one_page_per_month_def demo_pages_keys)
  have h: "demo_coll demo_id = Some demo_doc \<and> get_pages demo_doc = Inr demo_pages
      \<and> one_page_per_month demo_pages"
    using z by (simp add: demo_coll_demo_id get_pages_demo_doc)
  from inst [THEN conjunct1] h
  have a: "\<exists>coll' d' ps'.
           snd (update_calendar_page hex_ObjectId (Some demo_coll) 11 demo_id 7 note_only) = Some coll'
         \<and> coll' demo_id = Some d' \<and> get_pages d' = Inr ps' \<and> one_page_per_month ps'"
    by (rule mp)
  from inst [THEN conjunct2] v have "\<exists>ps. create_calendar recording_store demo_create [] =
                 (case recording_store ''calendar''
                         \<lparr>title = cc_title demo_create, year = cc_year demo_create,
                          start_month = cc_start_month demo_create,
                          style = cc_style demo_create, pages = ps, owner = cc_owner demo_create\<rparr> [] of
                    Inl x \<Rightarrow> Inl (CreateDocumentError x)
                  | Inr (inserted_id, s') \<Rightarrow> Inr ([(''id'', inserted_id)], s'))
             \<and> distinct (map month ps)
             \<and> one_page_per_month (map model_dump ps)"
    by (rule mp)
  then have b: "\<exists>ps. create_calendar recording_store demo_create [] =
              Inr ([(''id'', ''id1'')],
                   [\<lparr>title = ''Team 2025'', year = 2025, start_month = 3, style = ''classic'',
                     pages = ps, owner = None\<rparr>])
          \<and> distinct (map month ps)
          \<and> one_page_per_month (map model_dump ps)"
    by (simp add: recording_store_def demo_create_def)
  from h a v b show ?thesis by (intro conjI) simp_all
qed

subsection \<open>Months out of range\<close>

text \<open>
  C6. With a month below 1 or above 12, \<open>update_calendar_page\<close> raises the HTTP error 400
  \<open>Month must be 1..12\<close> and leaves the store as it is, whatever the store (available
  or not), the identifier (well formed or not) and the payload.
\<close>

theorem update_calendar_page_month_range:
  assumes "m < 1 \<or> 12 < m"
  shows "update_calendar_page ObjectId db now cid m pl
           = (Inl (HTTPException 400 ''Month must be 1..12''), db)"
  using assms by (simp add: update_calendar_page_def)

theorem update_calendar_page_month_range_witness:
  "((0::int) < 1 \<or> (12::int) < 0)
   \<and> update_calendar_page hex_ObjectId None 11 ''not-an-id'' 0 note_only
       = (Inl (HTTPException 400 ''Month must be 1..12''), None)
   \<and> ((13::int) < 1 \<or> (12::int) < 13)
   \<and> update_calendar_page hex_ObjectId (Some demo_coll) 11 demo_id 13 note_only
       = (Inl (HTTPException 400 ''Month must be 1..12''), Some demo_coll)"
proof -
  have a: "(0::int) < 1 \<or> (12::int) < 0" and b: "(13::int) < 1 \<or> (12::int) < 13" by simp_all
  from update_calendar_page_month_range [OF a] update_calendar_page_month_range [OF b] a b
  show ?thesis by (intro conjI)
qed

subsection \<open>Looking a calendar up\<close>

text \<open>
  C7, as amended. When the store is not available, \<open>get_calendar\<close> raises the HTTP
  error 500 \<open>Database not available\<close>, whatever the identifier. When the store is
  available: an identifier that does not parse raises 400 \<open>Invalid calendar id\<close>; one that
  parses and matches no document raises 404 \<open>Calendar not found\<close>; otherwise the answer
  is the stored document with the entry \<open>id\<close> holding the identifier as a string, no
  \<open>_id\<close> entry, and every other entry as stored.
\<close>

theorem get_calendar_outcomes:
  "(db = None \<longrightarrow>
      get_calendar ObjectId str_of db cid = Inl (HTTPException 500 ''Database not available''))
   \<and> (\<forall>coll. db = Some coll \<longrightarrow>
        (ObjectId cid = None \<longrightarrow>
           get_calendar ObjectId str_of db cid = Inl (HTTPException 400 ''Invalid calendar id''))
      \<and> (\<forall>oid. ObjectId cid = Some oid \<and> coll oid = None \<longrightarrow>
           get_calendar ObjectId str_of db cid = Inl (HTTPException 404 ''Calendar not found''))
      \<and> (\<forall>oid d. ObjectId cid = Some oid \<and> coll oid = Some d \<longrightarrow>
           (\<exists>r. get_calendar ObjectId str_of db cid = Inr r
               \<and> r ''id'' = Some (VStr (str_of oid))
               \<and> r ''_id'' = None
               \<and> (\<forall>k. k \<noteq> ''id'' \<and> k \<noteq> ''_id'' \<longrightarrow> r k = d k))))"
  by (simp add: get_calendar_def find_one_def)

theorem get_calendar_outcomes_witness:
  "get_calendar hex_ObjectId id None demo_id = Inl (HTTPException 500 ''Database not available'')
   \<and> hex_ObjectId ''not-an-id'' = None
   \<and> get_calendar hex_ObjectId id (Some demo_coll) ''not-an-id''
       = Inl (HTTPException 400 ''Invalid calendar id'')
   \<and> hex_ObjectId other_id = Some other_id \<and> demo_coll other_id = None
   \<and> get_calendar hex_ObjectId id (Some demo_coll) other_id
       = Inl (HTTPException 404 ''Calendar not found'')
   \<and> hex_ObjectId demo_id = Some demo_id \<and> demo_coll demo_id = Some demo_doc
   \<and> (\<exists>r. get_calendar hex_ObjectId id (Some demo_coll) demo_id = Inr r
         \<and> r ''id'' = Some (VStr demo_id) \<and> r ''_id'' = None
         \<and> r ''title'' = Some (VStr ''Team 2025'')
         \<and> r ''pages'' = Some (VPages demo_pages))"
proof -
  have a: "get_calendar hex_ObjectId id None demo_id = Inl (HTTPException 500 ''Database not available'')"
    using get_calendar_outcomes [where db = None and ObjectId = hex_ObjectId and str_of = id and cid = demo_id]
    by simp
  have b: "get_calendar hex_ObjectId id (Some demo_coll) ''not-an-id''
       = Inl (HTTPException 400 ''Invalid calendar id'')"
    using get_calendar_outcomes [where db = "Some demo_coll" and ObjectId = hex_ObjectId
        and str_of = id and cid = "''not-an-id''"]
    by (simp add: hex_not_an_id)
  have c: "get_calendar hex_ObjectId id (Some demo_coll) other_id
       = Inl (HTTPException 404 ''Calendar not found'')"
    using get_calendar_outcomes [where db = "Some demo_coll" and ObjectId = hex_ObjectId
        and str_of = id and cid = other_id]
    by (simp add: hex_other_id demo_coll_other_id)
  have "\<exists>r. get_calendar hex_ObjectId id (Some demo_coll) demo_id = Inr r
         \<and> r ''id'' = Some (VStr (id demo_id)) \<and> r ''_id'' = None
         \<and> (\<forall>k. k \<noteq> ''id'' \<and> k \<noteq> ''_id'' \<longrightarrow> r k = demo_doc k)"
    using get_calendar_outcomes [where db = "Some demo_coll" and ObjectId = hex_ObjectId
        and str_of = id and cid = demo_id]
    by (simp add: hex_demo_id demo_coll_demo_id)
  then obtain r where r: "get_calendar hex_ObjectId id (Some demo_coll) demo_id = Inr r
         \<and> r ''id'' = Some (VStr (id demo_id)) \<and> r ''_id'' = None
         \<and> (\<forall>k. k \<noteq> ''id'' \<and> k \<noteq> ''_id'' \<longrightarrow> r k = demo_doc k)"
    by (elim exE)
  then have "r ''title'' = demo_doc ''title''" "r ''pages'' = demo_doc ''pages''" by simp_all
  then have "r ''title'' = Some (VStr ''Team 2025'')" "r ''pages'' = Some (VPages demo_pages)"
    by (simp_all add: demo_doc_def)
  with r have d: "\<exists>r. get_calendar hex_ObjectId id (Some demo_coll) demo_id = Inr r
         \<and> r ''id'' = Some (VStr demo_id) \<and> r ''_id'' = None
         \<and> r ''title'' = Some (VStr ''Team 2025'')
         \<and> r ''pages'' = Some (VPages demo_pages)"
    by (intro exI [of _ r]) simp
  from a b c d hex_not_an_id hex_other_id demo_coll_other_id hex_demo_id demo_coll_demo_id
  show ?thesis by (intro conjI)
qed

text \<open>
  Without the amendment the statement of C7 fails: with no store, an identifier that
  does not parse is answered with 500 \<open>Database not available\<close>, not with
  400 \<open>Invalid calendar id\<close>.
\<close>

theorem get_calendar_outcomes_counterexample:
  "hex_ObjectId ''not-an-id'' = None
   \<and> get_calendar hex_ObjectId id None ''not-an-id''
       = Inl (HTTPException 500 ''Database not available'')
   \<and> get_calendar hex_ObjectId id None ''not-an-id''
       \<noteq> Inl (HTTPException 400 ''Invalid calendar id'')"
  by (simp add: get_calendar_def hex_not_an_id)

subsection \<open>Identifiers that do not parse\<close>

text \<open>
  C8, as amended. With a valid month and an identifier that does not parse,
  \<open>update_calendar_page\<close> raises the HTTP error 400 \<open>Invalid calendar id\<close> when the store
  is available; when the store is not available it raises the HTTP error 500
  \<open>Database not available\<close>, since the handler looks at the store before it parses the
  identifier. The store is unchanged either way.
\<close>

theorem update_calendar_page_invalid_id:
  assumes "1 \<le> m" "m \<le> 12" "ObjectId cid = None"
  shows "update_calendar_page ObjectId db now cid m pl
           = (if db = None then Inl (HTTPException 500 ''Database not available'')
              else Inl (HTTPException 400 ''Invalid calendar id''), db)"
  using assms by (simp add: update_calendar_page_def split: option.splits)

theorem update_calendar_page_invalid_id_witness:
  "(1::int) \<le> 4 \<and> (4::int) \<le> 12 \<and> hex_ObjectId ''not-an-id'' = None
   \<and> update_calendar_page hex_ObjectId (Some demo_coll) 11 ''not-an-id'' 4 note_only
       = (Inl (HTTPException 400 ''Invalid calendar id''), Some demo_coll)
   \<and> update_calendar_page hex_ObjectId None 11 ''not-an-id'' 4 note_only
       = (Inl (HTTPException 500 ''Database not available''), None)"
proof -
  have h: "(1::int) \<le> 4" "(4::int) \<le> 12" "hex_ObjectId ''not-an-id'' = None"
    by (simp_all add: hex_not_an_id)
  from update_calendar_page_invalid_id
         [where ObjectId = hex_ObjectId and cid = "''not-an-id''" and m = 4
            and db = "Some demo_coll" and now = 11 and pl = note_only, OF h]
    update_calendar_page_invalid_id
         [where ObjectId = hex_ObjectId and cid = "''not-an-id''" and m = 4
            and db = None and now = 11 and pl = note_only, OF h] h
  show ?thesis by simp
qed

text \<open>
  Without the amendment the statement of C8 fails: with a valid month, an identifier
  that does not parse and no store, the handler raises 500 \<open>Database not available\<close>;
  the check of the store comes before the parse of the identifier.
\<close>

theorem update_calendar_page_invalid_id_counterexample:
  "(1::int) \<le> 4 \<and> (4::int) \<le> 12 \<and> hex_ObjectId ''not-an-id'' = None
   \<and> update_calendar_page hex_ObjectId None 11 ''not-an-id'' 4 note_only
       = (Inl (HTTPException 500 ''Database not available''), None)
   \<and> fst (update_calendar_page hex_ObjectId None 11 ''not-an-id'' 4 note_only)
       \<noteq> Inl (HTTPException 400 ''Invalid calendar id'')"
  by (simp add: update_calendar_page_def hex_not_an_id)

subsection \<open>Validation of a creation request\<close>

text \<open>
  C9. \<open>create_calendar\<close> raises the validation error exactly when \<open>year\<close> is outside
  1900..3000 or \<open>start_month\<close> is outside 1..12, whatever \<open>create_document\<close> does; the
  title plays no part, so a request with the empty title fails validation exactly when
  the same request with any other title does.
\<close>

theorem create_calendar_validation:
  "((\<exists>fs. create_calendar create_doc p s = Inl (ValidationError fs))
      \<longleftrightarrow> \<not> (1900 \<le> cc_year p \<and> cc_year p \<le> 3000)
           \<or> \<not> (1 \<le> cc_start_month p \<and> cc_start_month p \<le> 12))
   \<and> ((\<exists>fs. create_calendar create_doc (p\<lparr>cc_title := []\<rparr>) s = Inl (ValidationError fs))
      \<longleftrightarrow> (\<exists>fs. create_calendar create_doc p s = Inl (ValidationError fs)))"
  unfolding create_calendar_def
  by (auto simp add: build_pages_eq Calendar_def Let_def split: sum.splits prod.splits)

theorem create_calendar_validation_witness:
  "cc_year early_create < 1900
   \<and> (\<exists>fs. create_calendar recording_store early_create [] = Inl (ValidationError fs))
   \<and> cc_title untitled_create = []
   \<and> 1900 \<le> cc_year untitled_create \<and> cc_year untitled_create \<le> 3000
   \<and> 1 \<le> cc_start_month untitled_create \<and> cc_start_month untitled_create \<le> 12
   \<and> \<not> (\<exists>fs. create_calendar recording_store untitled_create [] = Inl (ValidationError fs))"
  using create_calendar_validation [of recording_store early_create "[]"]
    create_calendar_validation [of recording_store untitled_create "[]"]
  by (simp add: early_create_def untitled_create_def)

subsection \<open>An update that supplies nothing\<close>

text \<open>
  C10. A call with a valid month on an existing calendar that supplies neither image
  nor note succeeds with \<open>{"status": "ok"}\<close> and writes the document with \<open>updated_at\<close>
  set to the clock; the pages are unchanged when a page for the month exists, and
  otherwise the old pages followed by the page \<open>{"month": m}\<close>, which has neither
  \<open>image_url\<close> nor \<open>note\<close>.
\<close>

theorem update_calendar_page_empty_payload:
  assumes "1 \<le> m" "m \<le> 12" "ObjectId cid = Some oid" "coll oid = Some d"
    and "get_pages d = Inr ps"
    and "pu_image_url pl = None" "pu_note pl = None"
  shows "\<exists>d' ps'.
       update_calendar_page ObjectId (Some coll) now cid m pl
         = (Inr ok_response, Some (coll(oid \<mapsto> d')))
     \<and> d' ''updated_at'' = Some (VTime now)
     \<and> d' ''pages'' = Some (VPages ps')
     \<and> ((\<exists>p\<in>set ps. p ''month'' = Some (PInt m)) \<longrightarrow> ps' = ps)
     \<and> ((\<forall>p\<in>set ps. p ''month'' \<noteq> Some (PInt m)) \<longrightarrow> ps' = ps @ [[''month'' \<mapsto> PInt m]])"
proof -
  let ?ps' = "upsert_page m pl ps"
  let ?d' = "d(''pages'' \<mapsto> VPages ?ps', ''updated_at'' \<mapsto> VTime now)"
  have run: "update_calendar_page ObjectId (Some coll) now cid m pl
         = (Inr ok_response, Some (coll(oid \<mapsto> ?d')))"
    using assms(1,2,4,3,5) by (rule update_calendar_page_success)
  have no_fields: "\<And>q. q ++ supplied_fields pl = q"
    using assms(6,7) by (simp add: supplied_fields_def map_add_def fun_eq_iff)
  have found: "(\<exists>p\<in>set ps. p ''month'' = Some (PInt m)) \<longrightarrow> ?ps' = ps"
  proof
    assume "\<exists>p\<in>set ps. p ''month'' = Some (PInt m)"
    then have "find_page_index m ps \<noteq> None" by (simp add: find_page_index_None)
    then obtain i where "find_page_index m ps = Some i" by (cases "find_page_index m ps") simp_all
    then have "?ps' = ps[i := ps ! i ++ supplied_fields pl]" by (rule upsert_page_found)
    then show "?ps' = ps" by (simp add: no_fields)
  qed
  have absent: "(\<forall>p\<in>set ps. p ''month'' \<noteq> Some (PInt m)) \<longrightarrow> ?ps' = ps @ [[''month'' \<mapsto> PInt m]]"
    by (simp add: find_page_index_None [symmetric] upsert_page_appended no_fields)
  have upd: "?d' ''updated_at'' = Some (VTime now)" by simp
  have pg: "?d' ''pages'' = Some (VPages ?ps')" by simp
  from run upd pg found absent show ?thesis
    by (intro exI [of _ ?d'] exI [of _ ?ps'] conjI)
qed

theorem update_calendar_page_empty_payload_witness:
  "1 \<le> (7::int) \<and> (7::int) \<le> 12 \<and> hex_ObjectId demo_id = Some demo_id
   \<and> demo_coll demo_id = Some demo_doc \<and> get_pages demo_doc = Inr demo_pages
   \<and> pu_image_url empty_update = None \<and> pu_note empty_update = None
   \<and> 7 \<notin> set (month_keys demo_pages)
   \<and> (\<exists>d'. update_calendar_page hex_ObjectId (Some demo_coll) 11 demo_id 7 empty_update
                = (Inr ok_response, Some (demo_coll(demo_id \<mapsto> d')))
        \<and> d' ''updated_at'' = Some (VTime 11)
        \<and> d' ''pages'' = Some (VPages (demo_pages @ [[''month'' \<mapsto> PInt 7]])))"
proof -
  have h: "1 \<le> (7::int)" "(7::int) \<le> 12" "hex_ObjectId demo_id = Some demo_id"
    "demo_coll demo_id = Some demo_doc" "get_pages demo_doc = Inr demo_pages"
    "pu_image_url empty_update = None" "pu_note empty_update = None"
    by (simp_all add: hex_demo_id demo_coll_demo_id get_pages_demo_doc empty_update_def)
  from update_calendar_page_empty_payload
         [where ObjectId = hex_ObjectId and coll = demo_coll and cid = demo_id and oid = demo_id
            and d = demo_doc and ps = demo_pages and m = 7 and now = 11 and pl = empty_update, OF h]
  obtain d' ps' where r:
    "update_calendar_page hex_ObjectId (Some demo_coll) 11 demo_id 7 empty_update
         = (Inr ok_response, Some (demo_coll(demo_id \<mapsto> d')))
     \<and> d' ''updated_at'' = Some (VTime 11)
     \<and> d' ''pages'' = Some (VPages ps')
     \<and> ((\<exists>p\<in>set demo_pages. p ''month'' = Some (PInt 7)) \<longrightarrow> ps' = demo_pages)
     \<and> ((\<forall>p\<in>set demo_pages. p ''month'' \<noteq> Some (PInt 7))
           \<longrightarrow> ps' = demo_pages @ [[''month'' \<mapsto> PInt 7]])"
    by (elim exE)
  with demo_pages_no_july have "ps' = demo_pages @ [[''month'' \<mapsto> PInt 7]]" by blast
  with r have "update_calendar_page hex_ObjectId (Some demo_coll) 11 demo_id 7 empty_update
                = (Inr ok_response, Some (demo_coll(demo_id \<mapsto> d')))
        \<and> d' ''updated_at'' = Some (VTime 11)
        \<and> d' ''pages'' = Some (VPages (demo_pages @ [[''month'' \<mapsto> PInt 7]]))"
    by simp
  then have "\<exists>d'. update_calendar_page hex_ObjectId (Some demo_coll) 11 demo_id 7 empty_update
                = (Inr ok_response, Some (demo_coll(demo_id \<mapsto> d')))
        \<and> d' ''updated_at'' = Some (VTime 11)
        \<and> d' ''pages'' = Some (VPages (demo_pages @ [[''month'' \<mapsto> PInt 7]]))"
    by (intro exI [of _ d'])
  moreover have "7 \<notin> set (month_keys demo_pages)" by (simp add: demo_pages_keys)
  ultimately show ?thesis using h by (intro conjI)
qed

end
